theory Spec2Isabelle
  imports Main "HOL-Library.Word"
begin

section \<open>Run-time values\<close>

text \<open>
  The two modules are TypeScript; what they compute at run time is JavaScript. A JavaScript
  string is a sequence of 16-bit code units. The string literals of the source are ASCII:
  \<open>lit\<close> gives the code units of one.
\<close>

type_synonym jsstring = "16 word list"

definition lit :: "string \<Rightarrow> jsstring" where
  "lit s = map (\<lambda>c. of_nat (of_char c)) s"

text \<open>
  A JavaScript number is a double. The only numbers this code makes come from
  \<open>parseInt\<close>: \<open>NaN\<close>, an integer that a double holds exactly (\<open>Num n\<close>), the
  negative zero, or an infinity when the digits are too many for a double.
\<close>

datatype number = NaN | Num int | NegZero | PosInfinity | NegInfinity

text \<open>
  The source declares \<^verbatim>\<open>type Value = boolean | number | string | string[] | null\<close>.
  A property read can also give \<^verbatim>\<open>undefined\<close> (no such property) or something
  inherited from a built-in prototype (a function or an object, all of them truthy and none
  of them an array), so the run-time values carry two more shapes.
\<close>

datatype JSValue =
    VBoolean bool
  | VNumber number
  | VString jsstring
  | VStringList "jsstring list"
  | VNull
  | VUndefined
  | VBuiltin

text \<open>The declared type \<^verbatim>\<open>Value\<close>, as a predicate on run-time values.\<close>

fun Value :: "JSValue \<Rightarrow> bool" where
  "Value (VBoolean b) = True"
| "Value (VNumber n) = True"
| "Value (VString s) = True"
| "Value (VStringList xs) = True"
| "Value VNull = True"
| "Value VUndefined = False"
| "Value VBuiltin = False"

datatype error = TypeError jsstring

text \<open>
  \<^verbatim>\<open>{ id, type, value }\<close> as the query returns it. The type tag is a string at run
  time; \<open>None\<close> is a tag that is \<^verbatim>\<open>null\<close> or \<^verbatim>\<open>undefined\<close>.
\<close>

record ConfigValue =
  cv_id :: jsstring
  cv_type :: "jsstring option"
  cv_value :: jsstring

section \<open>Built-ins of the language used by the code\<close>

text \<open>
  \<^verbatim>\<open>Boolean(x)\<close>: false for \<^verbatim>\<open>undefined\<close>, \<^verbatim>\<open>null\<close>,
  \<^verbatim>\<open>false\<close>, both zeros, \<^verbatim>\<open>NaN\<close> and the empty string; true for everything
  else, arrays (also the empty one) included.
\<close>

fun Boolean :: "JSValue \<Rightarrow> bool" where
  "Boolean (VBoolean b) = b"
| "Boolean (VNumber n) = (n \<noteq> NaN \<and> n \<noteq> Num 0 \<and> n \<noteq> NegZero)"
| "Boolean (VString s) = (s \<noteq> [])"
| "Boolean (VStringList xs) = True"
| "Boolean VNull = False"
| "Boolean VUndefined = False"
| "Boolean VBuiltin = True"

text \<open>\<^verbatim>\<open>Array.isArray(x)\<close>.\<close>

fun isArray :: "JSValue \<Rightarrow> bool" where
  "isArray (VStringList xs) = True"
| "isArray v = False"

text \<open>
  The double nearest to a natural number \<open>n\<close>, as a natural number, or \<open>None\<close> when
  it is an infinity. Below \<open>2 ^ 53\<close> every integer is a double. From there on a double
  keeps the 53 leading bits: with \<open>bitlen n\<close> the number of bits of \<open>n\<close> and
  \<open>e = bitlen n - 53\<close>, the doubles around \<open>n\<close> are the multiples of \<open>2 ^ e\<close>;
  \<open>n\<close> goes to the nearest one, and half way between two to the one with the even
  multiplier. A result of \<open>2 ^ 1024\<close> or more is an infinity.
\<close>

fun bitlen :: "nat \<Rightarrow> nat" where
  "bitlen n = (if n = 0 then 0 else Suc (bitlen (n div 2)))"

definition nearestDouble :: "nat \<Rightarrow> nat option" where
  "nearestDouble n =
     (if n < 2 ^ 53 then Some n
      else
        let e = bitlen n - 53;
            q = n div 2 ^ e;
            r = n mod 2 ^ e;
            q' = (if 2 ^ e < 2 * r \<or> (2 * r = 2 ^ e \<and> odd q) then q + 1 else q);
            m = q' * 2 ^ e
        in if 2 ^ 1024 \<le> m then None else Some m)"

text \<open>The Number for a sign and a magnitude; a negative sign on zero gives the negative zero.\<close>

definition signedNumber :: "bool \<Rightarrow> nat \<Rightarrow> number" where
  "signedNumber neg n =
     (if n = 0 then (if neg then NegZero else Num 0)
      else case nearestDouble n of
             None \<Rightarrow> (if neg then NegInfinity else PosInfinity)
           | Some m \<Rightarrow> Num (if neg then - int m else int m))"

text \<open>
  \<^verbatim>\<open>parseInt(string, radix)\<close> as ECMAScript defines it: leading white space is
  dropped, one sign is read, a radix other than 0 outside 2..36 gives \<open>NaN\<close>, a
  \<^verbatim>\<open>0x\<close> prefix is read only for radix 0 or 16, then the longest prefix of digits of
  the radix is taken; no digit gives \<open>NaN\<close>, whatever follows the digits is ignored, and
  the result is the Number for the sign and the value of the digits. (ECMAScript lets an
  engine read the decimal digits after the twentieth as zeros; the model does not.) White
  space is what \<^verbatim>\<open>trim\<close> removes: tab, line feed, vertical tab, form feed, carriage
  return, the space separators of Unicode, the line and paragraph separators and the byte
  order mark.
\<close>

definition isWhiteSpace :: "16 word \<Rightarrow> bool" where
  "isWhiteSpace c =
     (c \<in> set [0x09, 0x0A, 0x0B, 0x0C, 0x0D, 0x20, 0xA0, 0x1680,
                0x2000, 0x2001, 0x2002, 0x2003, 0x2004, 0x2005, 0x2006, 0x2007, 0x2008,
                0x2009, 0x200A, 0x2028, 0x2029, 0x202F, 0x205F, 0x3000, 0xFEFF])"

definition digitValue :: "16 word \<Rightarrow> nat" where
  "digitValue c =
     (let n = unat c
      in if 48 \<le> n \<and> n \<le> 57 then n - 48
         else if 97 \<le> n \<and> n \<le> 122 then n - 87
         else if 65 \<le> n \<and> n \<le> 90 then n - 55
         else 36)"

definition mathInt :: "nat \<Rightarrow> jsstring \<Rightarrow> nat" where
  "mathInt R z = foldl (\<lambda>a c. a * R + digitValue c) 0 z"

definition parseInt :: "jsstring \<Rightarrow> nat \<Rightarrow> number" where
  "parseInt string radix =
     (let s = dropWhile isWhiteSpace string;
          neg = (take 1 s = lit ''-'');
          s = (if take 1 s = lit ''-'' \<or> take 1 s = lit ''+'' then drop 1 s else s)
      in if radix \<noteq> 0 \<and> (radix < 2 \<or> 36 < radix) then NaN
         else
           let hex = ((radix = 0 \<or> radix = 16) \<and> (take 2 s = lit ''0x'' \<or> take 2 s = lit ''0X''));
               s = (if hex then drop 2 s else s);
               R = (if hex then 16 else if radix = 0 then 10 else radix);
               z = takeWhile (\<lambda>c. digitValue c < R) s
           in if z = [] then NaN else signedNumber neg (mathInt R z))"

text \<open>
  Decimal notation, to say what the base-10 parse is without \<open>parseInt\<close>: the code unit
  of a decimal digit, and the value of a list of decimal digits, the first the most
  significant.
\<close>

definition digit :: "nat \<Rightarrow> 16 word" where
  "digit d = of_nat (48 + d)"

fun decimalValue :: "nat list \<Rightarrow> nat" where
  "decimalValue [] = 0"
| "decimalValue (d # ds) = d * 10 ^ length ds + decimalValue ds"

text \<open>
  \<^verbatim>\<open>s.split(sep)\<close> for a separator of one code unit: the pieces between the
  separators, in order, one more piece than there are separators (so the empty string gives
  one empty piece). \<open>acc\<close> is the piece being read, reversed.
\<close>

fun split_from :: "jsstring \<Rightarrow> 16 word \<Rightarrow> jsstring \<Rightarrow> jsstring list" where
  "split_from acc sep [] = [rev acc]"
| "split_from acc sep (c # cs) =
     (if c = sep then rev acc # split_from [] sep cs else split_from (c # acc) sep cs)"

definition split :: "jsstring \<Rightarrow> 16 word \<Rightarrow> jsstring list" where
  "split s sep = split_from [] sep s"

section \<open>RequireConfig.tsx\<close>

subsection \<open>parseValue and isTrue\<close>

definition parseValue :: "jsstring option \<Rightarrow> jsstring \<Rightarrow> error + JSValue" where
  "parseValue type value =
     (case type of
        None \<Rightarrow> Inr VNull
      | Some t \<Rightarrow>
          if t = [] then Inr VNull
          else if t = lit ''boolean'' then Inr (VBoolean (value = lit ''true''))
          else if t = lit ''integer'' then Inr (VNumber (parseInt value 10))
          else if t = lit ''string'' then Inr (VString value)
          else if t = lit ''stringList'' then
            (if value = [] then Inr (VStringList []) else Inr (VStringList (split value 0x0A)))
          else Inl (TypeError (lit ''unknown config type '' @ [0x27] @ t @ [0x27])))"

definition isTrue :: "JSValue \<Rightarrow> bool" where
  "isTrue value =
     (case value of VStringList xs \<Rightarrow> length xs > 0 | _ \<Rightarrow> Boolean value)"

subsection \<open>The config object\<close>

text \<open>
  \<^verbatim>\<open>const data: ConfigData = {}\<close> is an ordinary object used as a dictionary: its own
  properties, and a prototype (\<^verbatim>\<open>Object.prototype\<close> for \<^verbatim>\<open>{}\<close>, written
  \<open>VBuiltin\<close>). An assignment \<^verbatim>\<open>data[k] = v\<close> creates or overwrites the own
  property \<open>k\<close>, with one exception of the language: while the object still inherits from
  \<^verbatim>\<open>Object.prototype\<close>, the key \<^verbatim>\<open>__proto__\<close> is an inherited setter, which
  replaces the prototype when \<open>v\<close> is an object or \<^verbatim>\<open>null\<close>, does nothing for any
  other value, and never creates an own property.
\<close>

record ConfigData =
  own :: "jsstring \<rightharpoonup> JSValue"
  proto :: JSValue

definition emptyObject :: ConfigData where
  "emptyObject = \<lparr>own = Map.empty, proto = VBuiltin\<rparr>"

definition setProp :: "ConfigData \<Rightarrow> jsstring \<Rightarrow> JSValue \<Rightarrow> ConfigData" where
  "setProp data k v =
     (if k = lit ''__proto__'' \<and> proto data \<noteq> VNull then
        (if isArray v \<or> v = VNull then data\<lparr>proto := v\<rparr> else data)
      else data\<lparr>own := (own data)(k \<mapsto> v)\<rparr>)"

text \<open>
  A read \<^verbatim>\<open>data[k]\<close> gives the own property when there is one and otherwise what the
  prototype chain holds for \<open>k\<close> (\<^verbatim>\<open>undefined\<close> when nothing). The built-in
  prototypes belong to the JavaScript engine and the page, not to this repository:
  \<open>inherited p k\<close>, the value found for \<open>k\<close> on the chain that starts at prototype
  \<open>p\<close>, is a parameter.
\<close>

definition getProp :: "(JSValue \<Rightarrow> jsstring \<Rightarrow> JSValue) \<Rightarrow> ConfigData \<Rightarrow> jsstring \<Rightarrow> JSValue" where
  "getProp inherited data k =
     (case own data k of Some v \<Rightarrow> v | None \<Rightarrow> inherited (proto data) k)"

text \<open>The chain of an environment in which no key is inherited, for evaluating examples.\<close>

definition nothingInherited :: "JSValue \<Rightarrow> jsstring \<Rightarrow> JSValue" where
  "nothingInherited p k = VUndefined"

text \<open>
  \<^verbatim>\<open>value.forEach((v) => { data[v.id] = parseValue(v.type, v.value) })\<close>: the entries in
  list order; an exception of \<open>parseValue\<close> ends the loop and is the outcome.
\<close>

fun forEach :: "ConfigValue list \<Rightarrow> ConfigData \<Rightarrow> error + ConfigData" where
  "forEach [] data = Inr data"
| "forEach (v # vs) data =
     (case parseValue (cv_type v) (cv_value v) of
        Inl e \<Rightarrow> Inl e
      | Inr x \<Rightarrow> forEach vs (setProp data (cv_id v) x))"

definition mapConfig :: "ConfigValue list \<Rightarrow> error + ConfigData" where
  "mapConfig value = forEach value emptyObject"

subsection \<open>The context and its hooks\<close>

text \<open>
  The result of the query: \<^verbatim>\<open>data\<close> is \<^verbatim>\<open>undefined\<close> until the fetch has
  answered, and each part of the answer may be missing; \<open>None\<close> is \<^verbatim>\<open>undefined\<close>
  or \<^verbatim>\<open>null\<close>.
\<close>

record User =
  user_id :: "jsstring option"
  user_role :: "jsstring option"

record QueryData =
  qd_user :: "User option"
  qd_config :: "ConfigValue list option"

record Context =
  ctx_config :: "ConfigValue list"
  ctx_isAdmin :: bool
  ctx_userID :: "jsstring option"

text \<open>A string that may be \<^verbatim>\<open>null\<close>, as a run-time value.\<close>

definition nullable :: "jsstring option \<Rightarrow> JSValue" where
  "nullable s = (case s of None \<Rightarrow> VNull | Some x \<Rightarrow> VString x)"

text \<open>
  \<open>ConfigProvider\<close> renders \<^verbatim>\<open>ConfigContext.Provider\<close> around its children; what it
  computes is the context value. \<^verbatim>\<open>a?.b\<close> is \<open>Option.bind\<close>; \<^verbatim>\<open>x || d\<close>
  takes \<open>d\<close> when \<open>x\<close> is falsy.
\<close>

definition ConfigProvider :: "QueryData option \<Rightarrow> Context" where
  "ConfigProvider data =
     \<lparr>ctx_config = (case Option.bind data qd_config of None \<Rightarrow> [] | Some c \<Rightarrow> c),
      ctx_isAdmin = (Option.bind (Option.bind data qd_user) user_role = Some (lit ''admin'')),
      ctx_userID =
        (let uid = Option.bind (Option.bind data qd_user) user_id
         in if Boolean (nullable uid) then uid else None)\<rparr>"

record SessionInfo =
  si_isAdmin :: bool
  si_userID :: "jsstring option"
  si_ready :: bool

definition useSessionInfo :: "Context \<Rightarrow> SessionInfo" where
  "useSessionInfo ctx =
     \<lparr>si_isAdmin = ctx_isAdmin ctx,
      si_userID = ctx_userID ctx,
      si_ready = Boolean (nullable (ctx_userID ctx))\<rparr>"

definition useConfig :: "Context \<Rightarrow> error + ConfigData" where
  "useConfig ctx = mapConfig (ctx_config ctx)"

subsection \<open>RequireConfig\<close>

text \<open>
  A React node is \<^verbatim>\<open>null\<close> or something to render. In the props an optional field
  that was left out is \<open>None\<close>; \<open>rc_else\<close> is the prop \<^verbatim>\<open>else\<close> and
  \<open>rc_isAdmin\<close> the prop \<^verbatim>\<open>isAdmin\<close>.
\<close>

datatype 'n ReactNode = Null | Node 'n

record 'n RequireConfigProps =
  rc_configID :: jsstring
  rc_test :: "(JSValue \<Rightarrow> bool) option"
  rc_else :: "'n ReactNode option"
  rc_isAdmin :: "bool option"
  rc_children :: "'n ReactNode"

definition RequireConfig ::
  "(JSValue \<Rightarrow> jsstring \<Rightarrow> JSValue) \<Rightarrow> Context \<Rightarrow> 'n RequireConfigProps \<Rightarrow> error + 'n ReactNode" where
  "RequireConfig inherited ctx props =
     (let configID = rc_configID props;
          test = (case rc_test props of None \<Rightarrow> isTrue | Some f \<Rightarrow> f);
          wantIsAdmin = (rc_isAdmin props = Some True);
          children = rc_children props;
          elseValue = (case rc_else props of None \<Rightarrow> Null | Some e \<Rightarrow> e)
      in case useConfig ctx of
           Inl e \<Rightarrow> Inl e
         | Inr config \<Rightarrow>
             let isAdmin = si_isAdmin (useSessionInfo ctx)
             in if wantIsAdmin \<and> \<not> isAdmin then Inr elseValue
                else if configID \<noteq> [] \<and> \<not> test (getProp inherited config configID) then Inr elseValue
                else Inr children)"

section \<open>LinkToMobile\<close>

text \<open>
  The answer of the \<^verbatim>\<open>authLinkStatus\<close> query; \<^verbatim>\<open>data\<close> is \<^verbatim>\<open>undefined\<close>
  while the query is skipped or has not answered.
\<close>

record AuthLinkStatus =
  als_id :: jsstring
  als_expiresAt :: jsstring
  als_claimed :: "bool option"
  als_verified :: "bool option"
  als_authed :: "bool option"

record StatusData =
  sd_authLinkStatus :: "AuthLinkStatus option"

text \<open>The values of \<^verbatim>\<open>x ?? ''\<close> for a boolean field: the boolean, or the empty string.\<close>

datatype flag = Flag bool | Empty

fun truthy :: "flag \<Rightarrow> bool" where
  "truthy (Flag b) = b"
| "truthy Empty = False"

text \<open>
  \<^verbatim>\<open>data?.authLinkStatus.f ?? ''\<close>. Only \<^verbatim>\<open>data\<close> is guarded: an answer whose
  \<^verbatim>\<open>authLinkStatus\<close> is \<^verbatim>\<open>null\<close> makes the read throw, which is \<open>None\<close>.
\<close>

definition statusField :: "(AuthLinkStatus \<Rightarrow> bool option) \<Rightarrow> StatusData option \<Rightarrow> flag option" where
  "statusField f data =
     (case data of
        None \<Rightarrow> Some Empty
      | Some d \<Rightarrow>
          (case sd_authLinkStatus d of
             None \<Rightarrow> None
           | Some s \<Rightarrow> Some (case f s of None \<Rightarrow> Empty | Some b \<Rightarrow> Flag b)))"

text \<open>
  The component's state between renders: \<^verbatim>\<open>index\<close> of \<^verbatim>\<open>useState(0)\<close>, and for
  each of the two effects on the index the dependency value of the previous render
  (\<open>None\<close> before the first render).
\<close>

record LinkState =
  ls_index :: int
  ls_claimed :: "flag option"
  ls_verified :: "flag option"

definition initialState :: LinkState where
  "initialState = \<lparr>ls_index = 0, ls_claimed = None, ls_verified = None\<rparr>"

definition setIndex :: "int \<Rightarrow> LinkState \<Rightarrow> LinkState" where
  "setIndex i st = st\<lparr>ls_index := i\<rparr>"

text \<open>
  \<^verbatim>\<open>useEffect(effect, [dep])\<close>: React runs the effect after the first render and after
  each render in which \<open>dep\<close> is not the value it had in the render before.
\<close>

definition useEffect :: "'d option \<Rightarrow> 'd \<Rightarrow> ('s \<Rightarrow> 's) \<Rightarrow> 's \<Rightarrow> 's" where
  "useEffect prev dep effect st = (if prev = Some dep then st else effect st)"

text \<open>
  One render with the query answer \<open>data\<close>, and the effects that follow it, in the order
  of the source. (The remaining effect, on \<^verbatim>\<open>showDialog\<close>, starts the mutation and
  does not touch the index.)
\<close>

definition LinkToMobile :: "LinkState \<Rightarrow> StatusData option \<Rightarrow> LinkState option" where
  "LinkToMobile st data =
     (case statusField als_claimed data of
        None \<Rightarrow> None
      | Some claimed \<Rightarrow>
          (case statusField als_verified data of
             None \<Rightarrow> None
           | Some verified \<Rightarrow>
               let st1 = useEffect (ls_claimed st) claimed
                           (\<lambda>s. if truthy claimed then setIndex 1 s else s) st;
                   st2 = useEffect (ls_verified st) verified
                           (\<lambda>s. if truthy verified then setIndex 2 s else s) st1
               in Some (st2\<lparr>ls_claimed := Some claimed, ls_verified := Some verified\<rparr>)))"

text \<open>\<^verbatim>\<open>onChangeIndex={(i: number) => setIndex(i)}\<close>: the user swipes or uses the arrow keys.\<close>

definition onChangeIndex :: "int \<Rightarrow> LinkState \<Rightarrow> LinkState" where
  "onChangeIndex i st = setIndex i st"

datatype View = ClaimCodeDisplay | VerifyCodeFields | Success | Retry

definition slideRenderer :: "int \<Rightarrow> View option" where
  "slideRenderer index =
     (if index = 0 then Some ClaimCodeDisplay
      else if index = 1 then Some VerifyCodeFields
      else if index = 2 then Some Success
      else if index = 3 then Some Retry
      else None)"

section \<open>The built-ins behave as described\<close>

subsection \<open>Literals\<close>

lemma of_char_lt: "(of_char c :: nat) < 256"
  using of_char_mod_256 [of c, where ?'a = nat] by (metis mod_less_divisor zero_less_numeral)

lemma unat_lit_char: "unat (of_nat (of_char c) :: 16 word) = of_char c"
proof -
  have "(of_char c :: nat) < 65536" using of_char_lt [of c] by linarith
  then show ?thesis by (simp add: unat_of_nat)
qed

text \<open>Different literals are different strings.\<close>

lemma lit_inj [simp]: "(lit s = lit t) = (s = t)"
proof -
  have "inj (\<lambda>c. (of_nat (of_char c) :: 16 word))"
  proof (rule injI)
    fix c d :: char
    assume "(of_nat (of_char c) :: 16 word) = of_nat (of_char d)"
    then have "unat (of_nat (of_char c) :: 16 word) = unat (of_nat (of_char d) :: 16 word)"
      by simp
    then have "(of_char c :: nat) = of_char d" by (simp only: unat_lit_char)
    then show "c = d" by simp
  qed
  then show ?thesis by (simp add: lit_def inj_map_eq_map)
qed

lemma lit_eq_Nil [simp]: "(lit s = []) = (s = [])" "([] = lit s) = (s = [])"
  by (auto simp: lit_def)

lemma lit_sign: "lit ''-'' = [45]" "lit ''+'' = [43]"
  by (simp_all add: lit_def)

subsection \<open>Rounding to a double\<close>

lemma bitlen_bounds: "0 < n \<Longrightarrow> 2 ^ (bitlen n - 1) \<le> n \<and> n < 2 ^ bitlen n"
proof (induction n rule: bitlen.induct)
  case (1 n)
  show ?case
  proof (cases "n div 2 = 0")
    case True
    with "1.prems" have "n = 1" by (simp add: div_eq_0_iff)
    then show ?thesis by simp
  next
    case False
    then have pos: "0 < n div 2" by simp
    from "1.IH" "1.prems" pos
    have ih: "2 ^ (bitlen (n div 2) - 1) \<le> n div 2" "n div 2 < 2 ^ bitlen (n div 2)"
      by simp_all
    have b: "bitlen n = Suc (bitlen (n div 2))" using "1.prems" by simp
    have "0 < bitlen (n div 2)" using pos by simp
    then obtain k where k: "bitlen (n div 2) = Suc k" by (cases "bitlen (n div 2)") simp_all
    from ih k have "2 * 2 ^ k \<le> n" "n < 2 * 2 ^ Suc k" by simp_all
    with b k show ?thesis by (simp del: bitlen.simps)
  qed
qed

lemma scaled_quotient_ge:
  assumes "(2::nat) ^ K \<le> n" and "p \<le> K" and "0 < p"
  shows "2 ^ K \<le> (n div 2 ^ (bitlen n - p)) * 2 ^ (bitlen n - p)"
proof -
  have n0: "0 < n" using assms(1) by (cases n) simp_all
  note bb = bitlen_bounds [OF n0]
  have "(2::nat) ^ K < 2 ^ bitlen n"
    using le_less_trans [OF assms(1) conjunct2 [OF bb]] .
  then have bl: "K < bitlen n" by simp
  define e where "e = bitlen n - p"
  have e: "bitlen n - 1 = (p - 1) + e" using bl assms by (simp add: e_def)
  have "2 ^ (p - 1) * 2 ^ e \<le> n" using bb e by (simp add: power_add del: bitlen.simps)
  then have q: "2 ^ (p - 1) \<le> n div 2 ^ e"
    by (simp add: less_eq_div_iff_mult_less_eq)
  have "K \<le> (p - 1) + e" using bl e by simp
  then have "(2::nat) ^ K \<le> 2 ^ ((p - 1) + e)" by (intro power_increasing) simp_all
  also have "\<dots> \<le> (n div 2 ^ e) * 2 ^ e" using q by (simp add: power_add)
  finally show ?thesis unfolding e_def .
qed

text \<open>An integer below \<open>2 ^ 53\<close> is kept; one from \<open>2 ^ 1024\<close> on is an infinity.\<close>

lemma nearestDouble_exact: "n < 2 ^ 53 \<Longrightarrow> nearestDouble n = Some n"
  by (simp add: nearestDouble_def)

lemma nearestDouble_overflow:
  assumes "2 ^ 1024 \<le> n"
  shows "nearestDouble n = None"
proof -
  define e where "e = bitlen n - 53"
  have m1: "2 ^ 1024 \<le> (n div 2 ^ e) * 2 ^ e"
    unfolding e_def using assms by (rule scaled_quotient_ge) simp_all
  have "(n div 2 ^ e) * 2 ^ e \<le> (n div 2 ^ e + 1) * 2 ^ e" by simp
  with m1 have m2: "2 ^ 1024 \<le> (n div 2 ^ e + 1) * 2 ^ e" by (rule le_trans)
  have "(2::nat) ^ 53 \<le> 2 ^ 1024" by (rule power_increasing) simp_all
  with assms have big: "\<not> n < 2 ^ 53" by (meson le_trans not_less)
  show ?thesis
    unfolding nearestDouble_def Let_def e_def [symmetric]
    using big m1 m2
    by (cases "2 ^ e < 2 * (n mod 2 ^ e) \<or> (2 * (n mod 2 ^ e) = 2 ^ e \<and> odd (n div 2 ^ e))")
       (simp_all only: if_False if_True)
qed

text \<open>
  From \<open>2 ^ 53\<close> on, the result is the multiple \<open>m\<close> of \<open>2 ^ e\<close> that is at
  most half of \<open>2 ^ e\<close> away from \<open>n\<close>, and exactly half away only with an even
  multiplier; it is an infinity when \<open>m\<close> has reached \<open>2 ^ 1024\<close>.
\<close>

lemma nearestDouble_round:
  assumes "\<not> n < 2 ^ 53"
  shows "\<exists>m. 2 ^ (bitlen n - 53) dvd m
         \<and> 2 * (if n \<le> m then m - n else n - m) \<le> 2 ^ (bitlen n - 53)
         \<and> (2 * (if n \<le> m then m - n else n - m) = 2 ^ (bitlen n - 53)
              \<longrightarrow> even (m div 2 ^ (bitlen n - 53)))
         \<and> nearestDouble n = (if 2 ^ 1024 \<le> m then None else Some m)"
proof -
  define e where "e = bitlen n - 53"
  define q where "q = n div 2 ^ e"
  define r where "r = n mod 2 ^ e"
  have n: "n = q * 2 ^ e + r"
    unfolding q_def r_def by (rule div_mult_mod_eq [symmetric])
  have r: "r < 2 ^ e"
    by (simp add: r_def)
  let ?up = "2 ^ e < 2 * r \<or> (2 * r = 2 ^ e \<and> odd q)"
  define m where "m = (if ?up then q + 1 else q) * 2 ^ e"
  have nd: "nearestDouble n = (if 2 ^ 1024 \<le> m then None else Some m)"
    using assms unfolding nearestDouble_def Let_def e_def [symmetric] q_def [symmetric]
      r_def [symmetric] m_def [symmetric]
    by (simp only: if_False)
  have "2 ^ e dvd m
         \<and> 2 * (if n \<le> m then m - n else n - m) \<le> 2 ^ e
         \<and> (2 * (if n \<le> m then m - n else n - m) = 2 ^ e \<longrightarrow> even (m div 2 ^ e))"
  proof (cases ?up)
    case True
    then have m': "m = q * 2 ^ e + 2 ^ e" by (simp add: m_def algebra_simps)
    have d: "m div 2 ^ e = q + 1" using m' by simp
    have "m - n = 2 ^ e - r" "n \<le> m" using m' n r by simp_all
    with True m' d r show ?thesis by auto
  next
    case False
    then have m': "m = q * 2 ^ e" by (simp add: m_def)
    have d: "m div 2 ^ e = q" using m' by simp
    have "n - m = r" "m \<le> n" using m' n by simp_all
    with False m' d r show ?thesis by (auto split: if_splits)
  qed
  with nd show ?thesis unfolding e_def by blast
qed

text \<open>The same for the Number of a sign and a magnitude.\<close>

lemma signedNumber_round:
  assumes "\<not> n < 2 ^ 53"
  shows "\<exists>m. 2 ^ (bitlen n - 53) dvd m
         \<and> 2 * (if n \<le> m then m - n else n - m) \<le> 2 ^ (bitlen n - 53)
         \<and> (2 * (if n \<le> m then m - n else n - m) = 2 ^ (bitlen n - 53)
              \<longrightarrow> even (m div 2 ^ (bitlen n - 53)))
         \<and> signedNumber neg n =
             (if 2 ^ 1024 \<le> m then (if neg then NegInfinity else PosInfinity)
              else Num (if neg then - int m else int m))"
proof -
  from nearestDouble_round [OF assms] obtain m where
    m: "2 ^ (bitlen n - 53) dvd m"
       "2 * (if n \<le> m then m - n else n - m) \<le> 2 ^ (bitlen n - 53)"
       "2 * (if n \<le> m then m - n else n - m) = 2 ^ (bitlen n - 53)
              \<longrightarrow> even (m div 2 ^ (bitlen n - 53))"
       "nearestDouble n = (if 2 ^ 1024 \<le> m then None else Some m)"
    by blast
  have n0: "n \<noteq> 0" using assms by (cases n) simp_all
  have "signedNumber neg n =
             (if 2 ^ 1024 \<le> m then (if neg then NegInfinity else PosInfinity)
              else Num (if neg then - int m else int m))"
    unfolding signedNumber_def m(4) using n0
    by (cases "(2::nat) ^ 1024 \<le> m") (simp_all only: if_False if_True option.case)
  with m(1,2,3) show ?thesis by blast
qed

lemma signedNumber_exact:
  "n < 2 ^ 53 \<Longrightarrow>
   signedNumber neg n = (if n = 0 \<and> neg then NegZero else Num (if neg then - int n else int n))"
  by (simp add: signedNumber_def nearestDouble_def)

lemma signedNumber_overflow:
  assumes "2 ^ 1024 \<le> n"
  shows "signedNumber neg n = (if neg then NegInfinity else PosInfinity)"
proof -
  have n0: "n \<noteq> 0" using assms by (cases n) simp_all
  show ?thesis
    unfolding signedNumber_def nearestDouble_overflow [OF assms] using n0
    by (simp only: if_False option.case)
qed

subsection \<open>parseInt\<close>

lemma parseInt_examples:
  "parseInt (lit ''42'') 10 = Num 42"
  "parseInt (lit ''  -7px'') 10 = Num (- 7)"
  "parseInt (lit ''+015'') 10 = Num 15"
  "parseInt (lit ''0x1f'') 10 = Num 0"
  "parseInt (lit ''abc'') 10 = NaN"
  "parseInt [] 10 = NaN"
  "parseInt (lit ''-0'') 10 = NegZero"
  "parseInt (0xFEFF # 0x2003 # lit ''42'') 10 = Num 42"
  by (simp_all add: parseInt_def isWhiteSpace_def digitValue_def mathInt_def lit_def
        signedNumber_def nearestDouble_def)

lemma parseInt_rounds:
  "parseInt (lit ''9007199254740993'') 10 = Num 9007199254740992"
  "parseInt (lit ''-9007199254740995'') 10 = Num (- 9007199254740996)"
  by (simp_all add: parseInt_def isWhiteSpace_def digitValue_def mathInt_def lit_def
        signedNumber_def nearestDouble_def Let_def)

lemma unat_digit: "d < 10 \<Longrightarrow> unat (digit d) = 48 + d"
  unfolding digit_def unat_of_nat by simp

lemma digitValue_digit: "d < 10 \<Longrightarrow> digitValue (digit d) = d"
  by (simp add: digitValue_def unat_digit)

lemma isWhiteSpace_unat: "isWhiteSpace c \<Longrightarrow> unat c \<notin> {43, 45} \<union> {48..57}"
  by (auto simp: isWhiteSpace_def)

lemma not_digit_start:
  "unat c \<notin> {48..57} \<Longrightarrow> \<forall>d<10. take 1 (c # cs) \<noteq> [digit d]"
  using unat_digit by auto

lemma digit_not_space: "d < 10 \<Longrightarrow> \<not> isWhiteSpace (digit d)"
  using isWhiteSpace_unat [of "digit d"] by (auto simp: unat_digit)

lemma digit_not_sign:
  assumes "d < 10"
  shows "digit d \<noteq> 45 \<and> digit d \<noteq> 43"
proof -
  from assms have "unat (digit d) \<noteq> unat (45 :: 16 word)" "unat (digit d) \<noteq> unat (43 :: 16 word)"
    by (simp_all add: unat_digit)
  then show ?thesis by auto
qed

lemma sign_not_space: "\<not> isWhiteSpace 45" "\<not> isWhiteSpace 43"
  by (simp_all add: isWhiteSpace_def)

lemma decimal_digit_is_digit: "digitValue c < 10 \<Longrightarrow> c = digit (digitValue c)"
proof -
  assume a: "digitValue c < 10"
  then have r: "48 \<le> unat c \<and> unat c \<le> 57"
    by (auto simp: digitValue_def Let_def split: if_splits)
  then have "digitValue c = unat c - 48" by (simp add: digitValue_def)
  with r have "digit (digitValue c) = of_nat (unat c)" by (simp add: digit_def)
  then show ?thesis by simp
qed

lemma no_digit_prefix:
  assumes "\<forall>d<10. take 1 rest \<noteq> [digit d]"
  shows "takeWhile (\<lambda>c. digitValue c < 10) rest = []"
proof (cases rest)
  case Nil
  then show ?thesis by simp
next
  case (Cons c cs)
  have "\<not> digitValue c < 10"
  proof
    assume a: "digitValue c < 10"
    with assms have "take 1 rest \<noteq> [digit (digitValue c)]" by blast
    with Cons decimal_digit_is_digit [OF a] show False by simp
  qed
  with Cons show ?thesis by simp
qed

lemma mathInt_digits:
  "\<forall>d\<in>set ds. d < 10 \<Longrightarrow>
   foldl (\<lambda>a c. a * 10 + digitValue c) a (map digit ds) = a * 10 ^ length ds + decimalValue ds"
  by (induction ds arbitrary: a) (simp_all add: digitValue_digit algebra_simps)

lemma takeWhile_digits:
  assumes "\<forall>d\<in>set ds. d < 10" and "\<forall>d<10. take 1 rest \<noteq> [digit d]"
  shows "takeWhile (\<lambda>c. digitValue c < 10) (map digit ds @ rest) = map digit ds"
proof -
  have "takeWhile (\<lambda>c. digitValue c < 10) (map digit ds @ rest)
          = map digit ds @ takeWhile (\<lambda>c. digitValue c < 10) rest"
    using assms(1) by (intro takeWhile_append2) (auto simp: digitValue_digit)
  with no_digit_prefix [OF assms(2)] show ?thesis by simp
qed

lemma dropWhile_space:
  assumes "\<forall>c\<in>set ws. isWhiteSpace c" and "xs = [] \<or> \<not> isWhiteSpace (hd xs)"
  shows "dropWhile isWhiteSpace (ws @ xs) = xs"
  using assms by (cases xs) (simp_all add: dropWhile_append2)

lemma parseInt_10:
  "parseInt string 10 =
     (let s = dropWhile isWhiteSpace string;
          neg = (take 1 s = lit ''-'');
          s = (if take 1 s = lit ''-'' \<or> take 1 s = lit ''+'' then drop 1 s else s);
          z = takeWhile (\<lambda>c. digitValue c < 10) s
      in if z = [] then NaN else signedNumber neg (mathInt 10 z))"
  by (simp add: parseInt_def Let_def)

text \<open>
  In base 10: after white space and at most one sign, decimal digits not followed by
  another digit are read as the number they write.
\<close>

lemma parseInt_decimal:
  assumes ws: "\<forall>c\<in>set ws. isWhiteSpace c"
    and sg: "sg \<in> {[], lit ''+'', lit ''-''}"
    and ds: "ds \<noteq> []" "\<forall>d\<in>set ds. d < 10"
    and rest: "\<forall>d<10. take 1 rest \<noteq> [digit d]"
  shows "parseInt (ws @ sg @ map digit ds @ rest) 10 = signedNumber (sg = lit ''-'') (decimalValue ds)"
proof -
  obtain d ds' where dd: "ds = d # ds'" using ds(1) by (cases ds) auto
  with ds(2) have d: "d < 10" by simp
  let ?body = "map digit ds @ rest"
  have hd: "hd (sg @ ?body) = (if sg = [] then digit d else hd sg)" using dd by (cases sg) simp_all
  have ns: "\<not> isWhiteSpace (hd (sg @ ?body))"
    using sg d hd by (auto simp: lit_sign digit_not_space sign_not_space)
  have dw: "dropWhile isWhiteSpace (ws @ sg @ ?body) = sg @ ?body"
    using ws ns by (intro dropWhile_space) (simp_all add: dd)
  have tw: "takeWhile (\<lambda>c. digitValue c < 10) ?body = map digit ds"
    using ds(2) rest by (rule takeWhile_digits)
  have mi: "mathInt 10 (map digit ds) = decimalValue ds"
    using mathInt_digits [OF ds(2), of 0] by (simp add: mathInt_def)
  from sg consider "sg = []" | "sg = lit ''+''" | "sg = lit ''-''" by auto
  then show ?thesis
  proof cases
    case 1
    have "take 1 ?body = [digit d]" using dd by simp
    with 1 digit_not_sign [OF d] dw tw mi ds(1) show ?thesis
      by (simp add: parseInt_10 lit_sign)
  next
    case 2
    with dw tw mi ds(1) show ?thesis by (simp add: parseInt_10 lit_sign)
  next
    case 3
    with dw tw mi ds(1) show ?thesis by (simp add: parseInt_10 lit_sign)
  qed
qed

text \<open>Without a digit in that place the result is \<open>NaN\<close>.\<close>

lemma parseInt_no_digits:
  assumes ws: "\<forall>c\<in>set ws. isWhiteSpace c"
    and sg: "sg \<in> {[], lit ''+'', lit ''-''}"
    and rest: "\<forall>d<10. take 1 rest \<noteq> [digit d]"
    and bare: "sg = [] \<longrightarrow> (\<forall>c. take 1 rest = [c] \<longrightarrow> \<not> isWhiteSpace c \<and> c \<noteq> 43 \<and> c \<noteq> 45)"
  shows "parseInt (ws @ sg @ rest) 10 = NaN"
proof -
  have tw: "takeWhile (\<lambda>c. digitValue c < 10) rest = []" using rest by (rule no_digit_prefix)
  from sg consider "sg = []" | "sg = lit ''+''" | "sg = lit ''-''" by auto
  then show ?thesis
  proof cases
    case 1
    show ?thesis
    proof (cases rest)
      case Nil
      from ws have h: "dropWhile isWhiteSpace ws = []" by (simp add: dropWhile_eq_Nil_conv)
      show ?thesis by (simp add: parseInt_10 Let_def h 1 Nil)
    next
      case (Cons c cs)
      with bare 1 have c: "\<not> isWhiteSpace c" "c \<noteq> 43" "c \<noteq> 45" by simp_all
      have "dropWhile isWhiteSpace (ws @ rest) = rest"
        using ws c Cons by (intro dropWhile_space) simp_all
      with 1 c Cons tw show ?thesis by (simp add: parseInt_10 lit_sign)
    qed
  next
    case 2
    have "dropWhile isWhiteSpace (ws @ sg @ rest) = sg @ rest"
      using ws 2 by (intro dropWhile_space) (simp_all add: lit_sign sign_not_space)
    with 2 tw show ?thesis by (simp add: parseInt_10 lit_sign)
  next
    case 3
    have "dropWhile isWhiteSpace (ws @ sg @ rest) = sg @ rest"
      using ws 3 by (intro dropWhile_space) (simp_all add: lit_sign sign_not_space)
    with 3 tw show ?thesis by (simp add: parseInt_10 lit_sign)
  qed
qed

subsection \<open>split\<close>

lemma split_from_join:
  "concat (map (\<lambda>p. sep # p) (split_from acc sep s)) = sep # rev acc @ s"
  by (induction s arbitrary: acc) auto

lemma split_from_no_sep:
  "sep \<notin> set acc \<Longrightarrow> \<forall>p \<in> set (split_from acc sep s). sep \<notin> set p"
proof (induction s arbitrary: acc)
  case Nil
  then show ?case by simp
next
  case (Cons c cs)
  show ?case
  proof (cases "c = sep")
    case True
    with Cons.prems Cons.IH [of "[]"] show ?thesis by simp
  next
    case False
    with Cons.prems Cons.IH [of "c # acc"] show ?thesis by simp
  qed
qed

lemma split_from_length:
  "length (split_from acc sep s) = Suc (count_list s sep)"
  by (induction s arbitrary: acc) auto

text \<open>
  Joining the pieces with the separator gives the string back, no piece holds the
  separator, and there is one more piece than separators.
\<close>

lemma split_join: "tl (concat (map (\<lambda>p. sep # p) (split s sep))) = s"
  by (simp add: split_def split_from_join)

lemma split_no_sep: "p \<in> set (split s sep) \<Longrightarrow> sep \<notin> set p"
  using split_from_no_sep [of sep "[]" s] by (simp add: split_def)

lemma split_length: "length (split s sep) = Suc (count_list s sep)"
  by (simp add: split_def split_from_length)

section \<open>parseValue\<close>

text \<open>
  C1. For every non-empty type tag other than \<^verbatim>\<open>boolean\<close>, \<^verbatim>\<open>integer\<close>,
  \<^verbatim>\<open>string\<close> and \<^verbatim>\<open>stringList\<close>, and every raw value, \<open>parseValue\<close> throws
  the \<open>TypeError\<close> of the unrecognised tag; for each of the four tags it does not throw.
\<close>

theorem parseValue_unknown_type_throws:
  "(t \<noteq> [] \<and> t \<notin> {lit ''boolean'', lit ''integer'', lit ''string'', lit ''stringList''}
      \<longrightarrow> parseValue (Some t) v
            = Inl (TypeError (lit ''unknown config type '' @ [0x27] @ t @ [0x27])))
   \<and> (t \<in> {lit ''boolean'', lit ''integer'', lit ''string'', lit ''stringList''}
      \<longrightarrow> (\<exists>x. parseValue (Some t) v = Inr x))"
  by (auto simp: parseValue_def)

theorem parseValue_unknown_type_throws_witness:
  "lit ''float'' \<noteq> [] \<and> lit ''float'' \<notin> {lit ''boolean'', lit ''integer'', lit ''string'', lit ''stringList''}
   \<and> parseValue (Some (lit ''float'')) (lit ''1'')
       = Inl (TypeError (lit ''unknown config type '' @ [0x27] @ lit ''float'' @ [0x27]))
   \<and> lit ''integer'' \<in> {lit ''boolean'', lit ''integer'', lit ''string'', lit ''stringList''}
   \<and> (\<exists>x. parseValue (Some (lit ''integer'')) (lit ''1'') = Inr x)"
  using parseValue_unknown_type_throws [of "lit ''float''" "lit ''1''"]
        parseValue_unknown_type_throws [of "lit ''integer''" "lit ''1''"]
  by simp

text \<open>
  C2. The type tag alone selects the rule applied to the raw string: \<^verbatim>\<open>boolean\<close> gives
  true exactly for the string \<^verbatim>\<open>true\<close>; \<^verbatim>\<open>integer\<close> gives \<open>parseInt\<close> of the
  string in base 10; \<^verbatim>\<open>string\<close> gives the string itself; \<^verbatim>\<open>stringList\<close> gives
  the empty list for the empty string and otherwise the pieces of the string between its
  newline characters. What the base-10 parse and the pieces are is said without
  \<open>parseInt\<close> and \<open>split\<close>: after white space and at most one sign, decimal digits
  \<open>ds\<close> that no further digit follows give the Number of the sign and of
  \<open>decimalValue ds\<close>; with no digit there the result is \<open>NaN\<close>; that Number is the
  integer itself below \<open>2 ^ 53\<close> (the negative zero for a negative sign on zero) and from
  there on the nearest double, ties to even, or an infinity; and the pieces of a string that
  is not empty hold no newline and give the string back when joined with newlines.
\<close>

theorem parseValue_rule_by_type:
  "parseValue (Some (lit ''boolean'')) v = Inr (VBoolean (v = lit ''true''))
   \<and> parseValue (Some (lit ''integer'')) v = Inr (VNumber (parseInt v 10))
   \<and> parseValue (Some (lit ''string'')) v = Inr (VString v)
   \<and> parseValue (Some (lit ''stringList'')) v
       = Inr (VStringList (if v = [] then [] else split v 0x0A))
   \<and> ((\<forall>c\<in>set ws. isWhiteSpace c) \<and> sg \<in> {[], lit ''+'', lit ''-''}
        \<and> ds \<noteq> [] \<and> (\<forall>d\<in>set ds. d < 10) \<and> (\<forall>d<10. take 1 rest \<noteq> [digit d])
      \<longrightarrow> parseValue (Some (lit ''integer'')) (ws @ sg @ map digit ds @ rest)
            = Inr (VNumber (signedNumber (sg = lit ''-'') (decimalValue ds))))
   \<and> ((\<forall>c\<in>set ws. isWhiteSpace c) \<and> sg \<in> {[], lit ''+'', lit ''-''}
        \<and> (\<forall>d<10. take 1 rest \<noteq> [digit d])
        \<and> (sg = [] \<longrightarrow> (\<forall>c. take 1 rest = [c]
                \<longrightarrow> \<not> isWhiteSpace c \<and> [c] \<noteq> lit ''+'' \<and> [c] \<noteq> lit ''-''))
      \<longrightarrow> parseValue (Some (lit ''integer'')) (ws @ sg @ rest) = Inr (VNumber NaN))
   \<and> (n < 2 ^ 53
      \<longrightarrow> signedNumber neg n
            = (if n = 0 \<and> neg then NegZero else Num (if neg then - int n else int n)))
   \<and> (\<not> n < 2 ^ 53
      \<longrightarrow> (\<exists>m. 2 ^ (bitlen n - 53) dvd m
               \<and> 2 * (if n \<le> m then m - n else n - m) \<le> 2 ^ (bitlen n - 53)
               \<and> (2 * (if n \<le> m then m - n else n - m) = 2 ^ (bitlen n - 53)
                    \<longrightarrow> even (m div 2 ^ (bitlen n - 53)))
               \<and> signedNumber neg n =
                   (if 2 ^ 1024 \<le> m then (if neg then NegInfinity else PosInfinity)
                    else Num (if neg then - int m else int m))))
   \<and> (0 < n \<longrightarrow> 2 ^ (bitlen n - 1) \<le> n \<and> n < 2 ^ bitlen n)
   \<and> (v \<noteq> []
      \<longrightarrow> (\<exists>xs. parseValue (Some (lit ''stringList'')) v = Inr (VStringList xs)
                \<and> tl (concat (map (\<lambda>p. 0x0A # p) xs)) = v
                \<and> (\<forall>p\<in>set xs. 0x0A \<notin> set p)))
   \<and> (2 ^ 1024 \<le> n
      \<longrightarrow> signedNumber neg n = (if neg then NegInfinity else PosInfinity))"
proof -
  have eqs: "parseValue (Some (lit ''boolean'')) v = Inr (VBoolean (v = lit ''true''))"
    "parseValue (Some (lit ''string'')) v = Inr (VString v)"
    "parseValue (Some (lit ''stringList'')) v
       = Inr (VStringList (if v = [] then [] else split v 0x0A))"
    by (simp_all add: parseValue_def)
  have int: "parseValue (Some (lit ''integer'')) x = Inr (VNumber (parseInt x 10))" for x
    by (simp add: parseValue_def)
  have dec: "(\<forall>c\<in>set ws. isWhiteSpace c) \<and> sg \<in> {[], lit ''+'', lit ''-''}
        \<and> ds \<noteq> [] \<and> (\<forall>d\<in>set ds. d < 10) \<and> (\<forall>d<10. take 1 rest \<noteq> [digit d])
      \<longrightarrow> parseValue (Some (lit ''integer'')) (ws @ sg @ map digit ds @ rest)
            = Inr (VNumber (signedNumber (sg = lit ''-'') (decimalValue ds)))"
    using parseInt_decimal [of ws sg ds rest] by (simp only: int) blast
  have nan: "(\<forall>c\<in>set ws. isWhiteSpace c) \<and> sg \<in> {[], lit ''+'', lit ''-''}
        \<and> (\<forall>d<10. take 1 rest \<noteq> [digit d])
        \<and> (sg = [] \<longrightarrow> (\<forall>c. take 1 rest = [c]
                \<longrightarrow> \<not> isWhiteSpace c \<and> [c] \<noteq> lit ''+'' \<and> [c] \<noteq> lit ''-''))
      \<longrightarrow> parseValue (Some (lit ''integer'')) (ws @ sg @ rest) = Inr (VNumber NaN)"
    using parseInt_no_digits [of ws sg rest] by (simp only: int lit_sign) auto
  have spl: "v \<noteq> []
      \<longrightarrow> (\<exists>xs. parseValue (Some (lit ''stringList'')) v = Inr (VStringList xs)
                \<and> tl (concat (map (\<lambda>p. 0x0A # p) xs)) = v
                \<and> (\<forall>p\<in>set xs. 0x0A \<notin> set p))"
    using split_join [of "0x0A" v] split_no_sep [of _ v "0x0A"] by (auto simp: eqs(3))
  show ?thesis
    using eqs int [of v] dec nan spl signedNumber_exact [of n neg] signedNumber_round [of n neg]
      bitlen_bounds [of n] signedNumber_overflow [of n neg]
    by (intro conjI impI) (assumption | blast)+
qed

theorem parseValue_rule_by_type_witness:
  "parseValue (Some (lit ''integer'')) (0xFEFF # lit '' -42px'') = Inr (VNumber (Num (- 42)))
   \<and> parseValue (Some (lit ''integer'')) (lit ''- 5'') = Inr (VNumber NaN)
   \<and> parseValue (Some (lit ''integer'')) (lit ''9007199254740993'')
       = Inr (VNumber (Num 9007199254740992))
   \<and> bitlen 9007199254740993 = 54
   \<and> (\<exists>xs. parseValue (Some (lit ''stringList'')) (lit ''a'' @ [0x0A, 0x0A] @ lit ''b'')
              = Inr (VStringList xs)
            \<and> tl (concat (map (\<lambda>p. 0x0A # p) xs)) = lit ''a'' @ [0x0A, 0x0A] @ lit ''b''
            \<and> xs = [lit ''a'', [], lit ''b''])
   \<and> parseValue (Some (lit ''boolean'')) (lit ''True'') = Inr (VBoolean False)
   \<and> parseValue (Some (lit ''string'')) (lit '' 7 '') = Inr (VString (lit '' 7 ''))
   \<and> signedNumber True (2 ^ 1024) = NegInfinity"
proof -
  have ws: "\<forall>c\<in>set [0xFEFF, 0x20 :: 16 word]. isWhiteSpace c"
    by (simp add: isWhiteSpace_def)
  have px: "\<forall>d<10. take 1 (lit ''px'') \<noteq> [digit d]"
    unfolding lit_def by (simp only: list.map) (rule not_digit_start, simp)
  have a: "0xFEFF # lit '' -42px'' = [0xFEFF, 0x20] @ lit ''-'' @ map digit [4, 2] @ lit ''px''"
    by (simp add: lit_def digit_def)
  note T = parseValue_rule_by_type
      [of "lit ''True''" "[0xFEFF, 0x20]" "lit ''-''" "[4, 2]" "lit ''px''" 42 True]
  note dec = T [THEN conjunct2, THEN conjunct2, THEN conjunct2, THEN conjunct2, THEN conjunct1]
  note exact = T [THEN conjunct2, THEN conjunct2, THEN conjunct2, THEN conjunct2,
      THEN conjunct2, THEN conjunct2, THEN conjunct1]
  have "parseValue (Some (lit ''integer'')) ([0xFEFF, 0x20] @ lit ''-'' @ map digit [4, 2] @ lit ''px'')
          = Inr (VNumber (signedNumber True (decimalValue [4, 2])))"
    using dec ws px by simp
  moreover have "signedNumber True (decimalValue [4, 2]) = Num (- 42)"
    using exact by simp
  ultimately have w1: "parseValue (Some (lit ''integer'')) (0xFEFF # lit '' -42px'')
      = Inr (VNumber (Num (- 42)))" unfolding a by simp
  have w6: "parseValue (Some (lit ''boolean'')) (lit ''True'') = Inr (VBoolean False)"
    using T [THEN conjunct1] by simp

  have sp: "\<forall>d<10. take 1 (lit '' 5'') \<noteq> [digit d]"
    unfolding lit_def by (simp only: list.map) (rule not_digit_start, simp)
  have w2: "parseValue (Some (lit ''integer'')) (lit ''- 5'') = Inr (VNumber NaN)"
    using parseValue_rule_by_type [of "[]" "[]" "lit ''-''" "[]" "lit '' 5''" 0 False,
        THEN conjunct2, THEN conjunct2, THEN conjunct2, THEN conjunct2, THEN conjunct2,
        THEN conjunct1] sp
    by (simp add: lit_def)

  let ?ds = "[9, 0, 0, 7, 1, 9, 9, 2, 5, 4, 7, 4, 0, 9, 9, 3] :: nat list"
  let ?n = "9007199254740993 :: nat"
  note U = parseValue_rule_by_type
      [of "lit ''a'' @ [0x0A, 0x0A] @ lit ''b''" "[]" "[]" ?ds "[]" ?n False]
  note dec' = U [THEN conjunct2, THEN conjunct2, THEN conjunct2, THEN conjunct2, THEN conjunct1]
  note round = U [THEN conjunct2, THEN conjunct2, THEN conjunct2, THEN conjunct2,
      THEN conjunct2, THEN conjunct2, THEN conjunct2, THEN conjunct1]
  note bits = U [THEN conjunct2, THEN conjunct2, THEN conjunct2, THEN conjunct2,
      THEN conjunct2, THEN conjunct2, THEN conjunct2, THEN conjunct2, THEN conjunct1]
  note pieces = U [THEN conjunct2, THEN conjunct2, THEN conjunct2, THEN conjunct2,
      THEN conjunct2, THEN conjunct2, THEN conjunct2, THEN conjunct2, THEN conjunct2,
      THEN conjunct1]
  have b: "lit ''9007199254740993'' = [] @ [] @ map digit ?ds @ []"
    by (simp add: lit_def digit_def)
  have dv: "decimalValue ?ds = ?n" by simp
  have p5: "parseValue (Some (lit ''integer'')) (lit ''9007199254740993'')
          = Inr (VNumber (signedNumber False ?n))"
    unfolding b using dec' dv by simp
  have bl: "bitlen ?n = 54"
  proof -
    from bits have "2 ^ (bitlen ?n - 1) \<le> ?n" "?n < 2 ^ bitlen ?n" by simp_all
    moreover have "?n < 2 ^ 54" "(2::nat) ^ 53 \<le> ?n" by simp_all
    ultimately have "(2::nat) ^ (bitlen ?n - 1) < 2 ^ 54" "(2::nat) ^ 53 < 2 ^ bitlen ?n"
      by linarith+
    then have "bitlen ?n - 1 < 54" "53 < bitlen ?n"
      by (simp_all only: power_strict_increasing_iff [of 2] one_less_numeral_iff semiring_norm)
    then show ?thesis by linarith
  qed
  from round obtain m where
    m: "2 ^ (bitlen ?n - 53) dvd m"
       "2 * (if ?n \<le> m then m - ?n else ?n - m) \<le> 2 ^ (bitlen ?n - 53)"
       "2 * (if ?n \<le> m then m - ?n else ?n - m) = 2 ^ (bitlen ?n - 53)
          \<longrightarrow> even (m div 2 ^ (bitlen ?n - 53))"
       "signedNumber False ?n =
          (if 2 ^ 1024 \<le> m then (if False then NegInfinity else PosInfinity)
           else Num (if False then - int m else int m))"
    by auto
  from m(1,2,3) have "m = 9007199254740992"
    unfolding bl by (simp split: if_splits) presburger
  with m(4) have "signedNumber False ?n = Num 9007199254740992" by simp
  with p5 have w3: "parseValue (Some (lit ''integer'')) (lit ''9007199254740993'')
       = Inr (VNumber (Num 9007199254740992))" by simp
  have w5: "\<exists>xs. parseValue (Some (lit ''stringList'')) (lit ''a'' @ [0x0A, 0x0A] @ lit ''b'')
              = Inr (VStringList xs)
            \<and> tl (concat (map (\<lambda>p. 0x0A # p) xs)) = lit ''a'' @ [0x0A, 0x0A] @ lit ''b''
            \<and> xs = [lit ''a'', [], lit ''b'']"
    using pieces U [THEN conjunct2, THEN conjunct2, THEN conjunct2, THEN conjunct1]
    by (auto simp: split_def lit_def)
  have w7: "parseValue (Some (lit ''string'')) (lit '' 7 '') = Inr (VString (lit '' 7 ''))"
    using parseValue_rule_by_type [of "lit '' 7 ''", THEN conjunct2, THEN conjunct2, THEN conjunct1] .
  have w8: "signedNumber True (2 ^ 1024) = NegInfinity"
    using parseValue_rule_by_type [of "[]" "[]" "[]" "[]" "[]" "2 ^ 1024" True,
        THEN conjunct2, THEN conjunct2, THEN conjunct2, THEN conjunct2, THEN conjunct2,
        THEN conjunct2, THEN conjunct2, THEN conjunct2, THEN conjunct2, THEN conjunct2]
    by (simp only: le_refl if_True simp_thms)
  from w1 w2 w3 bl w5 w6 w7 w8 show ?thesis by blast
qed

text \<open>
  C4. For a tag among the four, or a falsy tag (missing or the empty string), and every raw
  string, \<open>parseValue\<close> returns, and what it returns is a boolean, a number, a string, a
  list of strings or \<^verbatim>\<open>null\<close>.
\<close>

theorem parseValue_shape:
  "(t = None \<or> t = Some [] \<or> t \<in> Some ` {lit ''boolean'', lit ''integer'', lit ''string'', lit ''stringList''})
   \<longrightarrow> (\<exists>r. parseValue t v = Inr r \<and> Value r \<and>
          ((\<exists>b. r = VBoolean b) \<or> (\<exists>n. r = VNumber n) \<or> (\<exists>s. r = VString s)
           \<or> (\<exists>xs. r = VStringList xs) \<or> r = VNull))"
  by (auto simp: parseValue_def)

theorem parseValue_shape_witness:
  "Some (lit ''stringList'') \<in> Some ` {lit ''boolean'', lit ''integer'', lit ''string'', lit ''stringList''}
   \<and> parseValue (Some (lit ''stringList'')) (lit ''a'' @ [0x0A] @ lit ''b'') = Inr (VStringList [lit ''a'', lit ''b''])
   \<and> parseValue None (lit ''x'') = Inr VNull"
  using parseValue_shape [of "Some (lit ''stringList'')" "(lit ''a'' @ [0x0A] @ lit ''b'')"]
        parseValue_shape [of None "lit ''x''"]
  by (simp add: parseValue_def split_def lit_def)

section \<open>The context\<close>

text \<open>
  C5. Missing data gives a fallback value, not an error: the config list of the context is
  empty when the query has no answer or the answer has no config; the user id is
  \<^verbatim>\<open>null\<close> when there is no answer, no user or no id; and \<open>parseValue\<close> returns
  \<^verbatim>\<open>null\<close> for a tag that is missing or empty.
\<close>

theorem ConfigProvider_fallbacks:
  "ctx_config (ConfigProvider None) = []
   \<and> ctx_config (ConfigProvider (Some \<lparr>qd_user = u, qd_config = None\<rparr>)) = []
   \<and> ctx_userID (ConfigProvider None) = None
   \<and> ctx_userID (ConfigProvider (Some \<lparr>qd_user = None, qd_config = c\<rparr>)) = None
   \<and> ctx_userID (ConfigProvider
        (Some \<lparr>qd_user = Some \<lparr>user_id = None, user_role = r\<rparr>, qd_config = c\<rparr>)) = None
   \<and> parseValue None v = Inr VNull
   \<and> parseValue (Some []) v = Inr VNull"
  by (simp add: ConfigProvider_def parseValue_def nullable_def)

text \<open>
  C6. The context is a function of the query result. Its admin flag is true exactly when a
  user was fetched whose role is the string \<^verbatim>\<open>admin\<close>. Its user id is the fetched
  user's id when that id is present and not the empty string, and \<^verbatim>\<open>null\<close>
  otherwise: the fallback of the source is \<^verbatim>\<open>||\<close>, which replaces every falsy id.
\<close>

theorem ConfigProvider_accessors:
  "ConfigProvider None = \<lparr>ctx_config = [], ctx_isAdmin = False, ctx_userID = None\<rparr>
   \<and> ctx_isAdmin (ConfigProvider (Some \<lparr>qd_user = None, qd_config = c\<rparr>)) = False
   \<and> ctx_userID (ConfigProvider (Some \<lparr>qd_user = None, qd_config = c\<rparr>)) = None
   \<and> ctx_isAdmin (ConfigProvider
        (Some \<lparr>qd_user = Some \<lparr>user_id = i, user_role = r\<rparr>, qd_config = c\<rparr>))
       = (r = Some (lit ''admin''))
   \<and> ctx_userID (ConfigProvider
        (Some \<lparr>qd_user = Some \<lparr>user_id = i, user_role = r\<rparr>, qd_config = c\<rparr>))
       = (if i = Some [] then None else i)"
  by (cases i) (simp_all add: ConfigProvider_def nullable_def)

text \<open>A user whose id is the empty string: the id is there, the context has \<^verbatim>\<open>null\<close>.\<close>

theorem ConfigProvider_empty_id_counterexample:
  "ctx_userID (ConfigProvider
     (Some \<lparr>qd_user = Some \<lparr>user_id = Some [], user_role = Some (lit ''user'')\<rparr>, qd_config = Some []\<rparr>))
   = None"
  by (simp add: ConfigProvider_def nullable_def)

text \<open>
  C8. \<open>ready\<close> of \<open>useSessionInfo\<close> is true exactly when the user id is a string that is
  not empty. It is computed from the user id alone: another config list in the context
  leaves it as it is, and a user id that is \<^verbatim>\<open>null\<close> or empty is not ready whatever
  the config list holds.
\<close>

theorem useSessionInfo_ready:
  "si_ready (useSessionInfo ctx) = (\<exists>u. ctx_userID ctx = Some u \<and> u \<noteq> [])
   \<and> si_ready (useSessionInfo (ctx\<lparr>ctx_config := c\<rparr>)) = si_ready (useSessionInfo ctx)
   \<and> \<not> si_ready (useSessionInfo \<lparr>ctx_config = c, ctx_isAdmin = a, ctx_userID = None\<rparr>)
   \<and> \<not> si_ready (useSessionInfo \<lparr>ctx_config = c, ctx_isAdmin = a, ctx_userID = Some []\<rparr>)"
  by (cases "ctx_userID ctx") (simp_all add: useSessionInfo_def nullable_def)

section \<open>isTrue\<close>

text \<open>
  C9. \<open>isTrue\<close> of a list of strings is true exactly when the list is not empty; of a value
  that is not a list it is the value's truthiness; so it is false for \<^verbatim>\<open>null\<close>,
  \<^verbatim>\<open>false\<close>, 0, \<^verbatim>\<open>NaN\<close> and the empty string. In full: it is false for these,
  for \<^verbatim>\<open>undefined\<close>, the negative zero and the empty list, and true for every other
  value.
\<close>

theorem isTrue_truthiness:
  "isTrue (VStringList xs) = (xs \<noteq> [])
   \<and> (\<not> isArray v \<longrightarrow> isTrue v = Boolean v)
   \<and> \<not> isTrue VNull
   \<and> \<not> isTrue (VBoolean False)
   \<and> \<not> isTrue (VNumber (Num 0))
   \<and> \<not> isTrue (VNumber NaN)
   \<and> \<not> isTrue (VString [])
   \<and> isTrue v = (v \<notin> {VNull, VUndefined, VBoolean False, VNumber (Num 0), VNumber NegZero,
                         VNumber NaN, VString [], VStringList []})"
  by (cases v) (auto simp: isTrue_def)

theorem isTrue_truthiness_witness:
  "\<not> isArray (VString (lit ''x'')) \<and> isTrue (VString (lit ''x'')) = Boolean (VString (lit ''x''))
   \<and> isTrue (VString (lit ''x'')) \<and> \<not> isTrue (VStringList []) \<and> isTrue (VStringList [[]])"
  using isTrue_truthiness [of "[]" "VString (lit ''x'')"] isTrue_truthiness [of "[[]]" VNull]
  by simp

section \<open>mapConfig\<close>

lemma parseValue_recognised:
  "t = None \<or> t \<in> Some ` {[], lit ''boolean'', lit ''integer'', lit ''string'', lit ''stringList''}
   \<Longrightarrow> \<exists>x. parseValue t v = Inr x"
  by (auto simp: parseValue_def)

lemma find_snoc:
  "find P (xs @ [x]) = (case find P xs of None \<Rightarrow> (if P x then Some x else None) | Some y \<Rightarrow> Some y)"
  by (induction xs) simp_all

text \<open>
  The loop from any object \<open>d\<close>, over entries that all parse and of which none is named
  \<^verbatim>\<open>__proto__\<close>: it ends, the prototype is untouched, and each own property is the
  parse of the last entry with that id, or what \<open>d\<close> had when no entry has the id.
\<close>

lemma forEach_own:
  assumes "\<forall>v \<in> set vs. \<exists>x. parseValue (cv_type v) (cv_value v) = Inr x"
    and "\<forall>v \<in> set vs. cv_id v \<noteq> lit ''__proto__''"
  shows "\<exists>d'. forEach vs d = Inr d' \<and> proto d' = proto d \<and>
           (\<forall>k. map_option Inr (own d' k) =
                  (case find (\<lambda>v. cv_id v = k) (rev vs) of
                     None \<Rightarrow> map_option Inr (own d k)
                   | Some v \<Rightarrow> Some (parseValue (cv_type v) (cv_value v))))"
  using assms
proof (induction vs arbitrary: d)
  case Nil
  then show ?case by simp
next
  case (Cons v vs)
  from Cons.prems obtain x where x: "parseValue (cv_type v) (cv_value v) = Inr x"
    by auto
  let ?d1 = "setProp d (cv_id v) x"
  from Cons.prems have "cv_id v \<noteq> lit ''__proto__''" by simp
  then have d1: "proto ?d1 = proto d" "own ?d1 = (own d)(cv_id v \<mapsto> x)"
    by (simp_all add: setProp_def)
  from Cons.IH [of ?d1] Cons.prems obtain d' where
    d': "forEach vs ?d1 = Inr d'" "proto d' = proto ?d1"
        "\<And>k. map_option Inr (own d' k) =
                  (case find (\<lambda>v. cv_id v = k) (rev vs) of
                     None \<Rightarrow> map_option Inr (own ?d1 k)
                   | Some v \<Rightarrow> Some (parseValue (cv_type v) (cv_value v)))"
    by auto
  have "forEach (v # vs) d = Inr d'" using x d' by simp
  moreover have "proto d' = proto d" using d' d1 by simp
  moreover have "map_option Inr (own d' k) =
                  (case find (\<lambda>v. cv_id v = k) (rev (v # vs)) of
                     None \<Rightarrow> map_option Inr (own d k)
                   | Some v \<Rightarrow> Some (parseValue (cv_type v) (cv_value v)))" for k
  proof (cases "find (\<lambda>v. cv_id v = k) (rev vs)")
    case None
    then show ?thesis using d'(3) [of k] d1(2) x by (simp add: find_snoc)
  next
    case (Some w)
    then show ?thesis using d'(3) [of k] by (simp add: find_snoc)
  qed
  ultimately show ?case by blast
qed

text \<open>A key that is an own property is read from the object, whatever is inherited.\<close>

lemma getProp_own: "own data k = Some v \<Longrightarrow> getProp inherited data k = v"
  by (simp add: getProp_def)

text \<open>The first entry that does not parse ends the loop with its exception.\<close>

lemma forEach_throws:
  assumes "\<forall>v \<in> set vs. \<exists>x. parseValue (cv_type v) (cv_value v) = Inr x"
    and "parseValue (cv_type w) (cv_value w) = Inl e"
  shows "forEach (vs @ w # ws) d = Inl e"
  using assms by (induction vs arbitrary: d) auto

text \<open>
  \<open>parseValue\<close> throws exactly on a tag that is not recognised, so \<open>mapConfig\<close>
  returns an object exactly for the lists whose tags are all recognised, whatever the ids.
\<close>

lemma parseValue_throws_iff:
  "(\<exists>e. parseValue t v = Inl e)
   = (t \<noteq> None \<and> t \<notin> Some ` {[], lit ''boolean'', lit ''integer'', lit ''string'', lit ''stringList''})"
  by (cases t) (auto simp: parseValue_def)

lemma forEach_recognised:
  "\<forall>v \<in> set vs. cv_type v = None
      \<or> cv_type v \<in> Some ` {[], lit ''boolean'', lit ''integer'', lit ''string'', lit ''stringList''}
   \<Longrightarrow> \<exists>d'. forEach vs d = Inr d'"
proof (induction vs arbitrary: d)
  case Nil
  then show ?case by simp
next
  case (Cons v vs)
  then obtain x where "parseValue (cv_type v) (cv_value v) = Inr x"
    using parseValue_recognised [of "cv_type v" "cv_value v"] by auto
  with Cons show ?case by simp
qed

lemma forEach_unrecognised:
  "\<exists>v \<in> set vs. cv_type v \<noteq> None
      \<and> cv_type v \<notin> Some ` {[], lit ''boolean'', lit ''integer'', lit ''string'', lit ''stringList''}
   \<Longrightarrow> \<exists>e. forEach vs d = Inl e"
proof (induction vs arbitrary: d)
  case Nil
  then show ?case by simp
next
  case (Cons w ws)
  show ?case
  proof (cases "parseValue (cv_type w) (cv_value w)")
    case (Inl e)
    then show ?thesis by simp
  next
    case (Inr x)
    then have "\<not> (\<exists>e. parseValue (cv_type w) (cv_value w) = Inl e)" by simp
    then have "cv_type w = None
      \<or> cv_type w \<in> Some ` {[], lit ''boolean'', lit ''integer'', lit ''string'', lit ''stringList''}"
      unfolding parseValue_throws_iff by blast
    with Cons.prems have "\<exists>v \<in> set ws. cv_type v \<noteq> None
      \<and> cv_type v \<notin> Some ` {[], lit ''boolean'', lit ''integer'', lit ''string'', lit ''stringList''}"
      by auto
    from Cons.IH [OF this] Inr show ?thesis by simp
  qed
qed

lemma mapConfig_returns_iff:
  "(\<exists>data. mapConfig vs = Inr data)
   = (\<forall>v \<in> set vs. cv_type v = None
        \<or> cv_type v \<in> Some ` {[], lit ''boolean'', lit ''integer'', lit ''string'', lit ''stringList''})"
proof
  assume "\<exists>data. mapConfig vs = Inr data"
  then show "\<forall>v \<in> set vs. cv_type v = None
        \<or> cv_type v \<in> Some ` {[], lit ''boolean'', lit ''integer'', lit ''string'', lit ''stringList''}"
    using forEach_unrecognised [of vs emptyObject] unfolding mapConfig_def by fastforce
next
  assume "\<forall>v \<in> set vs. cv_type v = None
        \<or> cv_type v \<in> Some ` {[], lit ''boolean'', lit ''integer'', lit ''string'', lit ''stringList''}"
  then show "\<exists>data. mapConfig vs = Inr data"
    unfolding mapConfig_def by (rule forEach_recognised)
qed

text \<open>
  An entry named \<^verbatim>\<open>__proto__\<close> gives no own property: a boolean is dropped, a list
  becomes the prototype of the object.
\<close>

lemma mapConfig_proto_key:
  "mapConfig [\<lparr>cv_id = lit ''__proto__'', cv_type = Some (lit ''boolean''), cv_value = lit ''true''\<rparr>]
   = Inr \<lparr>own = Map.empty, proto = VBuiltin\<rparr>"
  "mapConfig [\<lparr>cv_id = lit ''__proto__'', cv_type = Some (lit ''stringList''), cv_value = lit ''x''\<rparr>]
   = Inr \<lparr>own = Map.empty, proto = VStringList [lit ''x'']\<rparr>"
  by (simp_all add: mapConfig_def parseValue_def setProp_def emptyObject_def split_def lit_def)

text \<open>
  C10. For every list of config values whose type tags are all recognised (one of the four,
  or falsy) and in which no id is \<^verbatim>\<open>__proto__\<close>, \<open>mapConfig\<close>, and so
  \<open>useConfig\<close> on a context holding the list, returns an object whose own keys are exactly
  the ids of the list, each with the \<open>parseValue\<close> of the last entry of the list that has
  this id.
\<close>

theorem mapConfig_last_wins:
  assumes "\<forall>v \<in> set vs. cv_type v = None
             \<or> cv_type v \<in> Some ` {[], lit ''boolean'', lit ''integer'', lit ''string'', lit ''stringList''}"
    and "\<forall>v \<in> set vs. cv_id v \<noteq> lit ''__proto__''"
  shows "\<exists>data. mapConfig vs = Inr data
           \<and> useConfig \<lparr>ctx_config = vs, ctx_isAdmin = a, ctx_userID = u\<rparr> = Inr data
           \<and> dom (own data) = cv_id ` set vs
           \<and> (\<forall>k. map_option Inr (own data k) =
                  map_option (\<lambda>v. parseValue (cv_type v) (cv_value v))
                    (find (\<lambda>v. cv_id v = k) (rev vs)))"
proof -
  from assms(1) have p: "\<forall>v \<in> set vs. \<exists>x. parseValue (cv_type v) (cv_value v) = Inr x"
    using parseValue_recognised by blast
  from forEach_own [OF p assms(2), of emptyObject] obtain data where
    d: "forEach vs emptyObject = Inr data"
       "\<And>k. map_option Inr (own data k) =
                  (case find (\<lambda>v. cv_id v = k) (rev vs) of
                     None \<Rightarrow> map_option Inr (own emptyObject k)
                   | Some v \<Rightarrow> Some (parseValue (cv_type v) (cv_value v)))"
    by blast
  have m: "map_option Inr (own data k) =
             map_option (\<lambda>v. parseValue (cv_type v) (cv_value v))
               (find (\<lambda>v. cv_id v = k) (rev vs))" for k
    using d(2) [of k] by (simp add: emptyObject_def split: option.splits)
  have "(own data k = None) = (k \<notin> cv_id ` set vs)" for k
  proof -
    have "(own data k = None) = (find (\<lambda>v. cv_id v = k) (rev vs) = None)"
      using m [of k] by (cases "own data k"; cases "find (\<lambda>v. cv_id v = k) (rev vs)") simp_all
    also have "\<dots> = (k \<notin> cv_id ` set vs)"
      by (auto simp: find_None_iff)
    finally show ?thesis .
  qed
  then have "dom (own data) = cv_id ` set vs" by (auto simp: dom_def)
  with d(1) m show ?thesis by (auto simp: mapConfig_def useConfig_def)
qed

theorem mapConfig_last_wins_witness:
  "\<exists>data. mapConfig [\<lparr>cv_id = lit ''a'', cv_type = Some (lit ''boolean''), cv_value = lit ''true''\<rparr>,
                     \<lparr>cv_id = lit ''b'', cv_type = None, cv_value = lit ''x''\<rparr>,
                     \<lparr>cv_id = lit ''a'', cv_type = Some (lit ''integer''), cv_value = lit ''7''\<rparr>] = Inr data
          \<and> dom (own data) = {lit ''a'', lit ''b''}
          \<and> own data (lit ''a'') = Some (VNumber (Num 7))
          \<and> own data (lit ''b'') = Some VNull"
proof -
  let ?vs = "[\<lparr>cv_id = lit ''a'', cv_type = Some (lit ''boolean''), cv_value = lit ''true''\<rparr>,
              \<lparr>cv_id = lit ''b'', cv_type = None, cv_value = lit ''x''\<rparr>,
              \<lparr>cv_id = lit ''a'', cv_type = Some (lit ''integer''), cv_value = lit ''7''\<rparr>]"
  have h1: "\<forall>v \<in> set ?vs. cv_type v = None
              \<or> cv_type v \<in> Some ` {[], lit ''boolean'', lit ''integer'', lit ''string'', lit ''stringList''}"
    by simp
  have h2: "\<forall>v \<in> set ?vs. cv_id v \<noteq> lit ''__proto__''"
    by simp
  from mapConfig_last_wins [OF h1 h2] obtain data where
    d: "mapConfig ?vs = Inr data" "dom (own data) = cv_id ` set ?vs"
       "\<And>k. map_option Inr (own data k) =
                  map_option (\<lambda>v. parseValue (cv_type v) (cv_value v))
                    (find (\<lambda>v. cv_id v = k) (rev ?vs))"
    by blast
  have "dom (own data) = {lit ''a'', lit ''b''}" using d(2) by auto
  moreover have "own data (lit ''a'') = Some (VNumber (Num 7))"
    using d(3) [of "lit ''a''"]
    by (cases "own data (lit ''a'')")
       (simp_all add: parseValue_def parseInt_def isWhiteSpace_def digitValue_def mathInt_def
          lit_def signedNumber_def nearestDouble_def)
  moreover have "own data (lit ''b'') = Some VNull"
    using d(3) [of "lit ''b''"] by (cases "own data (lit ''b'')") (simp_all add: parseValue_def)
  ultimately show ?thesis using d(1) by blast
qed

text \<open>A list with an unrecognised tag: no object is produced, \<open>mapConfig\<close> throws.\<close>

theorem mapConfig_throws_counterexample:
  "mapConfig [\<lparr>cv_id = lit ''a'', cv_type = Some (lit ''boolean''), cv_value = lit ''true''\<rparr>,
              \<lparr>cv_id = lit ''b'', cv_type = Some (lit ''float''), cv_value = lit ''1''\<rparr>]
   = Inl (TypeError (lit ''unknown config type '' @ [0x27] @ lit ''float'' @ [0x27]))"
  by (simp add: mapConfig_def parseValue_def)

section \<open>RequireConfig\<close>

text \<open>
  C3. For every context and props: when parsing the config list of the context throws,
  \<open>RequireConfig\<close> throws the same error, whatever the props; when it gives the object
  \<open>config\<close>, \<open>RequireConfig\<close> returns the else-node (\<^verbatim>\<open>null\<close> unless given) if
  \<open>isAdmin\<close> is asked for and the session is not admin; otherwise the else-node if
  \<open>configID\<close> is not empty and the test (\<open>isTrue\<close> unless given) is false on
  \<^verbatim>\<open>config[configID]\<close>; otherwise its children.
\<close>

theorem RequireConfig_gate:
  "(\<forall>config. useConfig ctx = Inr config \<longrightarrow>
      RequireConfig inherited ctx props =
        Inr (if rc_isAdmin props = Some True \<and> \<not> ctx_isAdmin ctx
               then (case rc_else props of None \<Rightarrow> Null | Some e \<Rightarrow> e)
             else if rc_configID props \<noteq> []
                     \<and> \<not> (case rc_test props of None \<Rightarrow> isTrue | Some f \<Rightarrow> f)
                           (getProp inherited config (rc_configID props))
               then (case rc_else props of None \<Rightarrow> Null | Some e \<Rightarrow> e)
             else rc_children props))
   \<and> (\<forall>e. useConfig ctx = Inl e \<longrightarrow> RequireConfig inherited ctx props = Inl e)"
  by (auto simp: RequireConfig_def useSessionInfo_def Let_def)

theorem RequireConfig_gate_witness:
  "useConfig \<lparr>ctx_config = [\<lparr>cv_id = lit ''Mailgun.Enable'', cv_type = Some (lit ''boolean''), cv_value = lit ''false''\<rparr>],
              ctx_isAdmin = True, ctx_userID = Some (lit ''u1'')\<rparr>
     = Inr \<lparr>own = [lit ''Mailgun.Enable'' \<mapsto> VBoolean False], proto = VBuiltin\<rparr>
   \<and> RequireConfig nothingInherited
        \<lparr>ctx_config = [\<lparr>cv_id = lit ''Mailgun.Enable'', cv_type = Some (lit ''boolean''), cv_value = lit ''false''\<rparr>],
         ctx_isAdmin = True, ctx_userID = Some (lit ''u1'')\<rparr>
        \<lparr>rc_configID = lit ''Mailgun.Enable'', rc_test = None, rc_else = None, rc_isAdmin = Some True,
         rc_children = Node (1::nat)\<rparr>
     = Inr Null
   \<and> useConfig \<lparr>ctx_config = [\<lparr>cv_id = lit ''a'', cv_type = Some (lit ''float''), cv_value = lit ''1''\<rparr>],
              ctx_isAdmin = True, ctx_userID = Some (lit ''u1'')\<rparr>
     = Inl (TypeError (lit ''unknown config type '' @ [0x27] @ lit ''float'' @ [0x27]))
   \<and> RequireConfig nothingInherited
        \<lparr>ctx_config = [\<lparr>cv_id = lit ''a'', cv_type = Some (lit ''float''), cv_value = lit ''1''\<rparr>],
         ctx_isAdmin = True, ctx_userID = Some (lit ''u1'')\<rparr>
        \<lparr>rc_configID = [], rc_test = None, rc_else = None, rc_isAdmin = None,
         rc_children = Node (1::nat)\<rparr>
     = Inl (TypeError (lit ''unknown config type '' @ [0x27] @ lit ''float'' @ [0x27]))"
proof -
  let ?ctx1 = "\<lparr>ctx_config = [\<lparr>cv_id = lit ''Mailgun.Enable'', cv_type = Some (lit ''boolean''), cv_value = lit ''false''\<rparr>],
              ctx_isAdmin = True, ctx_userID = Some (lit ''u1'')\<rparr>"
  let ?ctx2 = "\<lparr>ctx_config = [\<lparr>cv_id = lit ''a'', cv_type = Some (lit ''float''), cv_value = lit ''1''\<rparr>],
              ctx_isAdmin = True, ctx_userID = Some (lit ''u1'')\<rparr>"
  have u1: "useConfig ?ctx1 = Inr \<lparr>own = [lit ''Mailgun.Enable'' \<mapsto> VBoolean False], proto = VBuiltin\<rparr>"
    by (simp add: useConfig_def mapConfig_def parseValue_def setProp_def emptyObject_def)
  have u2: "useConfig ?ctx2 = Inl (TypeError (lit ''unknown config type '' @ [0x27] @ lit ''float'' @ [0x27]))"
    by (simp add: useConfig_def mapConfig_def parseValue_def)
  show ?thesis
    using u1 u2
      RequireConfig_gate [of ?ctx1 nothingInherited
        "\<lparr>rc_configID = lit ''Mailgun.Enable'', rc_test = None, rc_else = None, rc_isAdmin = Some True,
         rc_children = Node (1::nat)\<rparr>"]
      RequireConfig_gate [of ?ctx2 nothingInherited
        "\<lparr>rc_configID = [], rc_test = None, rc_else = None, rc_isAdmin = None,
         rc_children = Node (1::nat)\<rparr>"]
    by (simp add: getProp_def isTrue_def)
qed

text \<open>
  \<open>isAdmin\<close> is asked for, the session is not admin, an else-node is given, and the config
  list holds an unrecognised tag: the else-node is not returned, \<open>RequireConfig\<close> throws.
\<close>

theorem RequireConfig_throws_counterexample:
  "RequireConfig nothingInherited
     \<lparr>ctx_config = [\<lparr>cv_id = lit ''a'', cv_type = Some (lit ''float''), cv_value = lit ''1''\<rparr>],
      ctx_isAdmin = False, ctx_userID = Some (lit ''u1'')\<rparr>
     \<lparr>rc_configID = [], rc_test = None, rc_else = Some (Node (0::nat)), rc_isAdmin = Some True,
      rc_children = Node 1\<rparr>
   = Inl (TypeError (lit ''unknown config type '' @ [0x27] @ lit ''float'' @ [0x27]))"
  by (simp add: RequireConfig_def useConfig_def mapConfig_def parseValue_def)

section \<open>LinkToMobile\<close>

text \<open>
  C7. A render whose query answer can be read moves the index only through the two effects:
  the index becomes 2 (the success view) when \<open>verified\<close> is truthy and is not the value
  the render before had; otherwise it becomes 1 (the verify-code view) when \<open>claimed\<close> is
  truthy and is not the value the render before had; otherwise the render leaves the index
  as it was.
\<close>

theorem LinkToMobile_index:
  assumes "statusField als_claimed data = Some claimed"
    and "statusField als_verified data = Some verified"
  shows "\<exists>st'. LinkToMobile st data = Some st'
          \<and> ls_index st' =
              (if truthy verified \<and> ls_verified st \<noteq> Some verified then 2
               else if truthy claimed \<and> ls_claimed st \<noteq> Some claimed then 1
               else ls_index st)
          \<and> ls_claimed st' = Some claimed \<and> ls_verified st' = Some verified
          \<and> slideRenderer 1 = Some VerifyCodeFields \<and> slideRenderer 2 = Some Success"
  using assms by (auto simp: LinkToMobile_def useEffect_def setIndex_def Let_def slideRenderer_def)

theorem LinkToMobile_index_witness:
  "statusField als_claimed (Some \<lparr>sd_authLinkStatus = Some \<lparr>als_id = lit ''l1'', als_expiresAt = [],
        als_claimed = Some True, als_verified = Some False, als_authed = Some False\<rparr>\<rparr>) = Some (Flag True)
   \<and> statusField als_verified (Some \<lparr>sd_authLinkStatus = Some \<lparr>als_id = lit ''l1'', als_expiresAt = [],
        als_claimed = Some True, als_verified = Some False, als_authed = Some False\<rparr>\<rparr>) = Some (Flag False)
   \<and> (\<exists>st'. LinkToMobile initialState (Some \<lparr>sd_authLinkStatus = Some \<lparr>als_id = lit ''l1'', als_expiresAt = [],
        als_claimed = Some True, als_verified = Some False, als_authed = Some False\<rparr>\<rparr>) = Some st'
          \<and> ls_index st' = 1)"
proof -
  let ?d = "Some \<lparr>sd_authLinkStatus = Some \<lparr>als_id = lit ''l1'', als_expiresAt = [],
        als_claimed = Some True, als_verified = Some False, als_authed = Some False\<rparr>\<rparr>"
  have c: "statusField als_claimed ?d = Some (Flag True)"
    and v: "statusField als_verified ?d = Some (Flag False)"
    by (simp_all add: statusField_def)
  from LinkToMobile_index [OF c v, of initialState] c v
  show ?thesis by (auto simp: initialState_def)
qed

text \<open>
  The answer says \<open>claimed\<close>, the index goes to 1, the user goes back to view 0, and the
  next render has the same answer: \<open>claimed\<close> is truthy and the index stays 0. And when
  an answer adds \<open>verified\<close>, \<open>claimed\<close> is still truthy and the index is 2.
\<close>

theorem LinkToMobile_claimed_counterexample:
  "LinkToMobile initialState (Some \<lparr>sd_authLinkStatus = Some \<lparr>als_id = lit ''l1'', als_expiresAt = [],
        als_claimed = Some True, als_verified = Some False, als_authed = Some False\<rparr>\<rparr>)
     = Some \<lparr>ls_index = 1, ls_claimed = Some (Flag True), ls_verified = Some (Flag False)\<rparr>
   \<and> onChangeIndex 0 \<lparr>ls_index = 1, ls_claimed = Some (Flag True), ls_verified = Some (Flag False)\<rparr>
     = \<lparr>ls_index = 0, ls_claimed = Some (Flag True), ls_verified = Some (Flag False)\<rparr>
   \<and> statusField als_claimed (Some \<lparr>sd_authLinkStatus = Some \<lparr>als_id = lit ''l1'', als_expiresAt = [],
        als_claimed = Some True, als_verified = Some False, als_authed = Some False\<rparr>\<rparr>) = Some (Flag True)
   \<and> truthy (Flag True)
   \<and> LinkToMobile \<lparr>ls_index = 0, ls_claimed = Some (Flag True), ls_verified = Some (Flag False)\<rparr>
        (Some \<lparr>sd_authLinkStatus = Some \<lparr>als_id = lit ''l1'', als_expiresAt = [],
        als_claimed = Some True, als_verified = Some False, als_authed = Some False\<rparr>\<rparr>)
     = Some \<lparr>ls_index = 0, ls_claimed = Some (Flag True), ls_verified = Some (Flag False)\<rparr>
   \<and> LinkToMobile \<lparr>ls_index = 1, ls_claimed = Some (Flag True), ls_verified = Some (Flag False)\<rparr>
        (Some \<lparr>sd_authLinkStatus = Some \<lparr>als_id = lit ''l1'', als_expiresAt = [],
        als_claimed = Some True, als_verified = Some True, als_authed = Some False\<rparr>\<rparr>)
     = Some \<lparr>ls_index = 2, ls_claimed = Some (Flag True), ls_verified = Some (Flag True)\<rparr>"
  by (simp add: LinkToMobile_def statusField_def useEffect_def setIndex_def onChangeIndex_def
        initialState_def)

end
